theory Spec2Isabelle
  imports Main "HOL-Library.FSet"
begin

section \<open>Python string primitives used by Overview.py\<close>

text \<open>
  Fields of a CSV row are Python \<open>str\<close> values; they are modelled as HOL strings.
  Only the characters the script inspects matter: the backslash, the period, the two
  quote characters, the decimal digits and the white space removed by \<open>str.strip()\<close>.
  A character stands for the code point of the same number, so the model covers the
  strings of code points below 256. Among these \<open>\d\<close> matches the digits 0-9 only,
  and \<open>strip()\<close> removes the code points 9-13, 28-32, 133 and 160.
\<close>

definition backslash :: char where
  "backslash = CHR 0x5C"

definition period :: char where
  "period = CHR 0x2E"

definition dquote :: char where
  "dquote = CHR 0x22"

definition squote :: char where
  "squote = CHR 0x27"

definition is_space :: "char \<Rightarrow> bool" where
  "is_space c =
     (let n = (of_char c :: nat)
      in (9 \<le> n \<and> n \<le> 13) \<or> (28 \<le> n \<and> n \<le> 32) \<or> n = 133 \<or> n = 160)"

definition is_digit :: "char \<Rightarrow> bool" where
  "is_digit c = (let n = (of_char c :: nat) in 48 \<le> n \<and> n \<le> 57)"

text \<open>\<open>s.strip()\<close> and \<open>s.strip(c)\<close>: drop the matching characters at both ends.\<close>

definition strip_where :: "(char \<Rightarrow> bool) \<Rightarrow> string \<Rightarrow> string" where
  "strip_where P s = rev (dropWhile P (rev (dropWhile P s)))"

definition py_strip :: "string \<Rightarrow> string" where
  "py_strip s = strip_where is_space s"

definition strip_char :: "char \<Rightarrow> string \<Rightarrow> string" where
  "strip_char c s = strip_where (\<lambda>x. x = c) s"

text \<open>\<open>s.split(c)\<close>: one more segment than there are separators; never empty.\<close>

fun split_on :: "char \<Rightarrow> string \<Rightarrow> string list" where
  "split_on c [] = [[]]"
| "split_on c (x # xs) =
     (let r = split_on c xs in
      if x = c then [] # r else (x # hd r) # tl r)"

text \<open>\<open>sep.join(xs)\<close>.\<close>

fun join :: "string \<Rightarrow> string list \<Rightarrow> string" where
  "join sep [] = []"
| "join sep [x] = x"
| "join sep (x # y # ys) = x @ sep @ join sep (y # ys)"

text \<open>
  \<open>re.fullmatch(r'\d+', s)\<close> and \<open>int(s)\<close> on such a string. CPython refuses to convert
  a decimal string of more than 4300 digits (its default limit) with a ValueError.
\<close>

datatype py_exception = IndexError | ValueError

definition fullmatch_digits :: "string \<Rightarrow> bool" where
  "fullmatch_digits s = (s \<noteq> [] \<and> list_all is_digit s)"

definition digits_value :: "string \<Rightarrow> int" where
  "digits_value s = foldl (\<lambda>a c. 10 * a + (int (of_char c) - 48)) 0 s"

definition int_max_str_digits :: nat where
  "int_max_str_digits = 4300"

definition py_int :: "string \<Rightarrow> py_exception + int" where
  "py_int s = (if length s > int_max_str_digits then Inl ValueError else Inr (digits_value s))"

section \<open>The aggregate store\<close>

text \<open>
  \<open>folder_data = defaultdict(lambda: {'size': 0, 'subfolders': set(), 'files': 0})\<close>.
  The dictionary keeps insertion order, which is the order of the report, so it is an
  association list; \<open>folder_data[k]\<close> creates the zero aggregate at the end when the key
  is absent.
\<close>

record aggregate =
  size_bytes :: int
  subfolders :: "string fset"
  files :: int

type_synonym folder_key = "string \<times> string"
type_synonym store = "(folder_key \<times> aggregate) list"

definition zero_aggregate :: aggregate where
  "zero_aggregate = \<lparr>size_bytes = 0, subfolders = {||}, files = 0\<rparr>"

text \<open>\<open>folder_data[k]\<close> followed by an in-place change \<open>f\<close> of the aggregate.\<close>

fun modify :: "folder_key \<Rightarrow> (aggregate \<Rightarrow> aggregate) \<Rightarrow> store \<Rightarrow> store" where
  "modify k f [] = [(k, f zero_aggregate)]"
| "modify k f ((k', a) # fd) =
     (if k' = k then (k', f a) # fd else (k', a) # modify k f fd)"

text \<open>Reading an aggregate the way the defaultdict would present it.\<close>

definition lookup :: "store \<Rightarrow> folder_key \<Rightarrow> aggregate" where
  "lookup fd k = (case map_of fd k of None \<Rightarrow> zero_aggregate | Some a \<Rightarrow> a)"

definition keys :: "store \<Rightarrow> folder_key set" where
  "keys fd = fst ` set fd"

section \<open>The body of the loop in \<open>process_chunk\<close>\<close>

type_synonym row = "string list"

text \<open>Lines 92-96: the first field holding both a backslash and a period, stripped.\<close>

fun find_full_name :: "row \<Rightarrow> string option" where
  "find_full_name [] = None"
| "find_full_name (part # rest) =
     (if backslash \<in> set part \<and> period \<in> set part then Some (py_strip part)
      else find_full_name rest)"

text \<open>Lines 122-127: the first field that is all digits once the quotes are stripped.\<close>

fun extract_length :: "row \<Rightarrow> py_exception + int" where
  "extract_length [] = Inr 0"
| "extract_length (part # rest) =
     (let candidate = strip_char squote (strip_char dquote part) in
      if fullmatch_digits candidate then py_int candidate
      else extract_length rest)"

text \<open>Lines 108-119: directory, drive and top-level folder.\<close>

definition directory_of :: "string list \<Rightarrow> string" where
  "directory_of path_parts = strip_char backslash (join [backslash] (butlast path_parts))"

definition not_applicable :: string where
  "not_applicable = ''Not Applicable''"

definition folder_key_of :: "string \<Rightarrow> folder_key" where
  "folder_key_of directory =
     (let parts = split_on backslash directory in
      if length parts \<ge> 2
      then ([backslash, backslash] @ parts ! 0 @ [backslash] @ parts ! 1,
            if length parts > 2 then parts ! 2 else not_applicable)
      else (directory, not_applicable))"

text \<open>
  Lines 130-133: \<open>None\<close> when \<open>len(parts) > 3\<close> fails (the set is then not touched),
  otherwise the cumulative paths \<open>parts[3:i+1]\<close>, the last one popped when
  \<open>parts[-1]\<close> holds a period.
\<close>

definition subfolders_of :: "string list \<Rightarrow> string list option" where
  "subfolders_of parts =
     (if length parts > 3
      then (let subs = map (\<lambda>i. join [backslash] (drop 3 (take (i + 1) parts)))
                           [3 ..< length parts]
            in Some (if period \<in> set (last parts) then butlast subs else subs))
      else None)"

datatype skip_reason = Missing_FullName | FullName_malformed | Raised py_exception

record contribution =
  folder_key :: folder_key
  length_bytes :: int
  new_subfolders :: "string list option"

text \<open>
  Lines 92-133 for one row: either the reason the row is skipped, or what lines
  134-137 will add to the store.
\<close>

definition row_contribution :: "row \<Rightarrow> skip_reason + contribution" where
  "row_contribution row =
     (case find_full_name row of
        None \<Rightarrow> Inl Missing_FullName
      | Some full_name \<Rightarrow>
          if full_name = [] then Inl Missing_FullName
          else
            let path_parts = split_on backslash (py_strip full_name) in
            if length path_parts < 3 then Inl FullName_malformed
            else
              let directory = directory_of path_parts;
                  parts = split_on backslash directory
              in (case extract_length row of
                    Inl e \<Rightarrow> Inl (Raised e)
                  | Inr n \<Rightarrow>
                      Inr \<lparr>folder_key = folder_key_of directory,
                           length_bytes = n,
                           new_subfolders = subfolders_of parts\<rparr>))"

text \<open>Lines 134-137: three accesses to \<open>folder_data[folder_key]\<close>.\<close>

definition apply_contribution :: "contribution \<Rightarrow> store \<Rightarrow> store" where
  "apply_contribution c fd =
     (let k = folder_key c;
          fd1 = (case new_subfolders c of
                   None \<Rightarrow> fd
                 | Some subs \<Rightarrow>
                     modify k (\<lambda>a. a\<lparr>subfolders := subfolders a |\<union>| fset_of_list subs\<rparr>) fd);
          fd2 = modify k (\<lambda>a. a\<lparr>size_bytes := size_bytes a + length_bytes c\<rparr>) fd1
      in modify k (\<lambda>a. a\<lparr>files := files a + 1\<rparr>) fd2)"

text \<open>
  The error log: one entry per \<open>write_log(..., error_log_file)\<close>, by message and line
  number (\<open>Too few columns\<close>, \<open>Missing FullName\<close>, \<open>FullName malformed\<close>, or the text of
  the exception caught at line 139).
\<close>

datatype log_entry =
    Too_few_columns nat
  | Row_skipped nat skip_reason

type_synonym error_log = "log_entry list"

record chunk_state =
  folder_data :: store
  server_name :: string
  error_log :: error_log

text \<open>
  One iteration. \<open>server_name\<close> is the parameter of \<open>process_chunk\<close>: line 90 rebinds
  it inside the call. \<open>row[0]\<close> raises IndexError on an empty row, inside the \<open>try\<close>.
\<close>

definition chunk_step :: "nat \<times> row \<Rightarrow> chunk_state \<Rightarrow> chunk_state" where
  "chunk_step lr st =
     (let ln = fst lr; row = snd lr in
      if (server_name st = [] \<or> server_name st = ''Unknown'') \<and> row = []
      then st\<lparr>error_log := error_log st @ [Row_skipped ln (Raised IndexError)]\<rparr>
      else
        let st1 = (if server_name st = [] \<or> server_name st = ''Unknown''
                   then st\<lparr>server_name := py_strip (row ! 0)\<rparr> else st)
        in case row_contribution row of
             Inl r \<Rightarrow> st1\<lparr>error_log := error_log st1 @ [Row_skipped ln r]\<rparr>
           | Inr c \<Rightarrow> st1\<lparr>folder_data := apply_contribution c (folder_data st1)\<rparr>)"

text \<open>
  \<open>process_chunk(chunk, folder_data, server_name, log_file, error_log_file)\<close>: the loop
  over the chunk. The function returns nothing; its effects are on the dictionary and
  on the error log. The string bound to \<open>server_name\<close> in the caller is not changed by
  the rebinding of the parameter.
\<close>

fun chunk_loop :: "(nat \<times> row) list \<Rightarrow> chunk_state \<Rightarrow> chunk_state" where
  "chunk_loop [] st = st"
| "chunk_loop (lr # rest) st = chunk_loop rest (chunk_step lr st)"

definition process_chunk ::
    "(nat \<times> row) list \<Rightarrow> store \<Rightarrow> string \<Rightarrow> error_log \<Rightarrow> store \<times> error_log" where
  "process_chunk ch fd sn el =
     (let st = chunk_loop ch \<lparr>folder_data = fd, server_name = sn, error_log = el\<rparr>
      in (folder_data st, error_log st))"

section \<open>\<open>process_csv\<close>\<close>

definition chunk_size :: nat where
  "chunk_size = 100000"

record csv_state =
  line_num :: nat
  chunk :: "(nat \<times> row) list"
  csv_folder_data :: store
  csv_error_log :: error_log

text \<open>
  Lines 43-57, for a batch size \<open>cs\<close>: the loop over the rows of the reader and the
  final partial chunk. \<open>sn\<close> is the variable \<open>server_name\<close> of \<open>process_csv\<close>, which
  no statement of \<open>process_csv\<close> assigns after line 33.
\<close>

fun read_rows :: "nat \<Rightarrow> string \<Rightarrow> row list \<Rightarrow> csv_state \<Rightarrow> store \<times> error_log" where
  "read_rows cs sn [] st =
     (if chunk st \<noteq> []
      then process_chunk (chunk st) (csv_folder_data st) sn (csv_error_log st)
      else (csv_folder_data st, csv_error_log st))"
| "read_rows cs sn (row # rows) st =
     (let ln = line_num st + 1 in
      if length row < 3
      then read_rows cs sn rows
             (st\<lparr>line_num := ln, csv_error_log := csv_error_log st @ [Too_few_columns ln]\<rparr>)
      else
        let chunk' = chunk st @ [(ln, row)] in
        if length chunk' \<ge> cs
        then (let (fd', el') = process_chunk chunk' (csv_folder_data st) sn (csv_error_log st)
              in read_rows cs sn rows
                   \<lparr>line_num = ln, chunk = [], csv_folder_data = fd', csv_error_log = el'\<rparr>)
        else read_rows cs sn rows (st\<lparr>line_num := ln, chunk := chunk'\<rparr>))"

text \<open>
  Line 66, \<open>round(size / 1024**3, 2)\<close>. Python computes in binary floating point; the
  model computes the exact quotient and rounds half to even at two decimals, which is
  the value Python prints whenever the size is below \<open>2^53\<close> (the division by a power of
  two is then exact and \<open>round\<close> is correctly rounded).
\<close>

definition round_half_even :: "rat \<Rightarrow> int" where
  "round_half_even x =
     (let f = \<lfloor>x\<rfloor>; d = x - of_int f in
      if d < 1 / 2 then f
      else if d > 1 / 2 then f + 1
      else if even f then f else f + 1)"

definition data_gb :: "int \<Rightarrow> rat" where
  "data_gb n = of_int (round_half_even (of_int n * 100 / 1024 ^ 3)) / 100"

text \<open>Lines 60-69: one data row per key, in the order of the dictionary.\<close>

record report_row =
  r_server_name :: string
  r_drive :: string
  r_folder :: string
  r_data_gb :: rat
  r_subfolders :: nat
  r_files :: int

definition output_row :: "string \<Rightarrow> folder_key \<times> aggregate \<Rightarrow> report_row" where
  "output_row sn e =
     \<lparr>r_server_name = sn,
      r_drive = fst (fst e),
      r_folder = snd (fst e),
      r_data_gb = data_gb (size_bytes (snd e)),
      r_subfolders = fcard (subfolders (snd e)),
      r_files = files (snd e)\<rparr>"

text \<open>
  \<open>process_csv\<close> on the rows the CSV reader yields (the first one is the header and is
  skipped by \<open>next(reader, None)\<close>), for a batch size \<open>cs\<close>: the final dictionary, the
  data rows of the report and the error log.
\<close>

definition run_csv :: "nat \<Rightarrow> row list \<Rightarrow> store \<times> report_row list \<times> error_log" where
  "run_csv cs rows =
     (let sn = ''Unknown'';
          (fd', el') = read_rows cs sn (tl rows)
                         \<lparr>line_num = 1, chunk = [], csv_folder_data = [], csv_error_log = []\<rparr>
      in (fd', map (output_row sn) fd', el'))"

definition process_csv :: "row list \<Rightarrow> store \<times> report_row list \<times> error_log" where
  "process_csv rows = run_csv chunk_size rows"

section \<open>Notions used to state the properties\<close>

subsection \<open>The loop body as a function of the dictionary\<close>

text \<open>What one row does to an aggregate it is attributed to (lines 134-137 together).\<close>

definition contribute :: "contribution \<Rightarrow> aggregate \<Rightarrow> aggregate" where
  "contribute c a =
     a\<lparr>subfolders := subfolders a |\<union>|
                       (case new_subfolders c of None \<Rightarrow> {||} | Some subs \<Rightarrow> fset_of_list subs),
       size_bytes := size_bytes a + length_bytes c,
       files := files a + 1\<rparr>"

text \<open>The effect of one loop iteration on the dictionary alone.\<close>

definition store_step :: "row \<Rightarrow> store \<Rightarrow> store" where
  "store_step row s =
     (case row_contribution row of Inl r \<Rightarrow> s | Inr c \<Rightarrow> apply_contribution c s)"

text \<open>A row is attributed to a key when the loop body reaches lines 134-137.\<close>

definition attributed :: "row \<Rightarrow> bool" where
  "attributed row = (case row_contribution row of Inl r \<Rightarrow> False | Inr c \<Rightarrow> True)"

text \<open>A valid row passes line 45 and is attributed.\<close>

definition valid_row :: "row \<Rightarrow> bool" where
  "valid_row row = (3 \<le> length row \<and> attributed row)"


text \<open>
  The path decomposition of lines 103-119 and 130-133 on its own: \<open>None\<close> when line 104
  rejects the path.
\<close>

definition decompose :: "string \<Rightarrow> (folder_key \<times> string list option) option" where
  "decompose full_name =
     (let path_parts = split_on backslash (py_strip full_name) in
      if length path_parts < 3 then None
      else
        let directory = directory_of path_parts;
            parts = split_on backslash directory
        in Some (folder_key_of directory, subfolders_of parts))"

text \<open>The state in which \<open>process_csv\<close> first calls \<open>process_chunk\<close>.\<close>

definition init_state :: chunk_state where
  "init_state = \<lparr>folder_data = [], server_name = ''Unknown'', error_log = []\<rparr>"

subsection \<open>The reader loop\<close>


text \<open>The rows that pass line 45, with their line numbers: the whole stream as one batch.\<close>

fun numbered :: "nat \<Rightarrow> row list \<Rightarrow> (nat \<times> row) list" where
  "numbered n [] = []"
| "numbered n (r # rs) =
     (if length r < 3 then [] else [(Suc n, r)]) @ numbered (Suc n) rs"

subsection \<open>The specification's words\<close>

text \<open>
  The size of a row as the specification describes it: the first field, from the left,
  that consists of decimal digits once the surrounding quotes are stripped, read as an
  integer; 0 when there is none.
\<close>

definition strip_quotes :: "string \<Rightarrow> string" where
  "strip_quotes part = strip_char squote (strip_char dquote part)"

definition numeric_field :: "string \<Rightarrow> bool" where
  "numeric_field part = fullmatch_digits (strip_quotes part)"

definition parsed_size :: "row \<Rightarrow> int" where
  "parsed_size row =
     (case find numeric_field row of
        None \<Rightarrow> 0
      | Some part \<Rightarrow> digits_value (strip_quotes part))"

text \<open>
  The directory segments as the specification describes them: strip the backslashes at
  both ends, split, drop the leaf.
\<close>

definition spec_directory_segments :: "string \<Rightarrow> string list" where
  "spec_directory_segments path = butlast (split_on backslash (strip_char backslash path))"

subsection \<open>Example rows\<close>

text \<open>A path \<open>\\seg1\seg2\...\<close> from its segments.\<close>

definition unc_path :: "string list \<Rightarrow> string" where
  "unc_path segments = [backslash, backslash] @ join [backslash] segments"

definition example_path :: string where
  "example_path = unc_path [''host'', ''share'', ''top'', ''sub1'', ''sub2'', ''file.ext'']"

definition dotted_dir_path :: string where
  "dotted_dir_path = unc_path [''host'', ''share'', ''top'', ''sub1'', ''v1.2'', ''readme'']"

definition short_path :: string where
  "short_path = unc_path [''host'', ''file.txt'']"

definition key_top :: folder_key where
  "key_top = (unc_path [''host'', ''share''], ''top'')"

definition row_a :: row where
  "row_a = [''SRV1'', example_path, ''1000'']"

definition row_b :: row where
  "row_b = [''SRV1'', short_path, ''5'']"

definition row_dotted :: row where
  "row_dotted = [''SRV1'', dotted_dir_path, ''1000'']"


definition row_plain :: row where
  "row_plain = [''SRV1'', unc_path [''host'', ''share'', ''top'', ''file.ext''], ''n/a'']"

section \<open>Facts about the store\<close>

lemma modify_modify: "modify k f (modify k g s) = modify k (f \<circ> g) s"
  by (induction k g s rule: modify.induct) simp_all

lemma map_of_modify: "map_of (modify k f s) = (map_of s)(k \<mapsto> f (lookup s k))"
  by (induction k f s rule: modify.induct) (auto simp: lookup_def fun_eq_iff)

lemma lookup_modify:
  "lookup (modify k f s) k' = (if k' = k then f (lookup s k) else lookup s k')"
  by (simp add: lookup_def map_of_modify)

lemma keys_modify: "keys (modify k f s) = insert k (keys s)"
  by (induction k f s rule: modify.induct) (simp_all add: keys_def insert_commute)



lemma set_modify:
  "e \<in> set (modify k f s) \<Longrightarrow> e \<in> set s \<or> (fst e = k \<and> snd e = f (lookup s k))"
  by (induction k f s rule: modify.induct) (auto simp: lookup_def split: if_splits)

lemma lookup_cases: "lookup s k = zero_aggregate \<or> (k, lookup s k) \<in> set s"
  by (auto simp: lookup_def split: option.splits dest: map_of_SomeD)


lemma apply_contribution_modify:
  "apply_contribution c s = modify (folder_key c) (contribute c) s"
proof -
  have "(\<lambda>a. a\<lparr>files := files a + 1\<rparr>) \<circ>
          (\<lambda>a. a\<lparr>size_bytes := size_bytes a + length_bytes c\<rparr>) \<circ>
          (\<lambda>a. a\<lparr>subfolders := subfolders a |\<union>| fset_of_list subs\<rparr>) = contribute c"
    if "new_subfolders c = Some subs" for subs
    using that by (auto simp: contribute_def fun_eq_iff)
  moreover have "(\<lambda>a. a\<lparr>files := files a + 1\<rparr>) \<circ>
          (\<lambda>a. a\<lparr>size_bytes := size_bytes a + length_bytes c\<rparr>) = contribute c"
    if "new_subfolders c = None"
    using that by (auto simp: contribute_def fun_eq_iff)
  ultimately show ?thesis
    by (cases "new_subfolders c") (simp_all add: apply_contribution_def Let_def modify_modify)
qed

section \<open>Facts about the string primitives\<close>

lemma split_on_nonempty: "split_on c s \<noteq> []"
  by (induction s) (simp_all add: Let_def)

lemma length_split_on: "length (split_on c s) = Suc (length (filter (\<lambda>x. x = c) s))"
proof (induction s)
  case Nil
  show ?case by simp
next
  case (Cons x s)
  have "length (tl (split_on c s)) = length (split_on c s) - 1"
    by simp
  with Cons split_on_nonempty [of c s] show ?case
    by (auto simp: Let_def)
qed

lemma strip_where_keeps: "x \<in> set s \<Longrightarrow> \<not> P x \<Longrightarrow> x \<in> set (strip_where P s)"
proof -
  have keep: "x \<in> set (dropWhile P xs)" if "x \<in> set xs" "\<not> P x" for xs
    using that by (induction xs) auto
  assume "x \<in> set s" "\<not> P x"
  then have "x \<in> set (rev (dropWhile P s))"
    by (simp add: keep)
  then have "x \<in> set (dropWhile P (rev (dropWhile P s)))"
    using \<open>\<not> P x\<close> by (rule keep)
  then show ?thesis
    by (simp add: strip_where_def)
qed

lemma find_full_name_backslash: "find_full_name row = Some full_name \<Longrightarrow> backslash \<in> set full_name"
proof (induction row)
  case Nil
  then show ?case by simp
next
  case (Cons part rest)
  have "\<not> is_space backslash"
    by (simp add: is_space_def backslash_def)
  with Cons show ?case
    by (auto simp: py_strip_def strip_where_keeps split: if_splits)
qed

section \<open>The size and the path of a row\<close>

lemma foldl_digits_nonneg:
  "list_all is_digit s \<Longrightarrow> 0 \<le> a \<Longrightarrow>
     0 \<le> foldl (\<lambda>a c. 10 * a + (int (of_char c) - 48)) a s"
  by (induction s arbitrary: a) (auto simp: is_digit_def Let_def)

lemma digits_value_nonneg: "fullmatch_digits s \<Longrightarrow> 0 \<le> digits_value s"
  by (simp add: fullmatch_digits_def digits_value_def foldl_digits_nonneg)

lemma extract_length_find:
  "extract_length row =
     (case find numeric_field row of
        None \<Rightarrow> Inr 0
      | Some part \<Rightarrow> py_int (strip_quotes part))"
  by (induction row) (simp_all add: numeric_field_def strip_quotes_def Let_def)

lemma extract_length_parsed_size: "extract_length row = Inr n \<Longrightarrow> n = parsed_size row"
  by (auto simp: extract_length_find parsed_size_def py_int_def split: option.splits if_splits)

lemma extract_length_nonneg: "extract_length row = Inr n \<Longrightarrow> 0 \<le> n"
  by (auto simp: extract_length_find py_int_def numeric_field_def digits_value_nonneg
                 find_Some_iff split: option.splits if_splits)

lemma row_contribution_length:
  "row_contribution row = Inr c \<Longrightarrow> extract_length row = Inr (length_bytes c)"
  by (auto simp: row_contribution_def Let_def split: option.splits if_splits sum.splits)

lemma length_bytes_nonneg: "row_contribution row = Inr c \<Longrightarrow> 0 \<le> length_bytes c"
  by (auto dest: row_contribution_length extract_length_nonneg)

lemma row_contribution_decompose:
  assumes "find_full_name row = Some full_name"
  shows "row_contribution row =
     (case decompose full_name of
        None \<Rightarrow> Inl FullName_malformed
      | Some d \<Rightarrow>
          (case extract_length row of
             Inl e \<Rightarrow> Inl (Raised e)
           | Inr n \<Rightarrow> Inr \<lparr>folder_key = fst d, length_bytes = n, new_subfolders = snd d\<rparr>))"
proof -
  from assms have "full_name \<noteq> []"
    by (auto dest: find_full_name_backslash)
  with assms show ?thesis
    by (simp add: row_contribution_def decompose_def Let_def split: sum.splits)
qed

section \<open>The loops, seen from the dictionary\<close>

text \<open>
  The dictionary after a chunk, and after the whole run, is the fold of the per-row
  step: neither the line numbers, nor the error log, nor the name bound inside
  \<open>process_chunk\<close>, nor the batch size has a part in it.
\<close>

lemma lookup_store_step:
  "lookup (store_step row s) k =
     (case row_contribution row of
        Inl r \<Rightarrow> lookup s k
      | Inr c \<Rightarrow> if k = folder_key c then contribute c (lookup s k) else lookup s k)"
  by (simp add: store_step_def apply_contribution_modify lookup_modify split: sum.splits)

lemma keys_store_step: "keys s \<subseteq> keys (store_step row s)"
  by (auto simp: store_step_def apply_contribution_modify keys_modify split: sum.splits)


lemma folder_data_chunk_step:
  "folder_data (chunk_step lr st) = store_step (snd lr) (folder_data st)"
  by (auto simp: chunk_step_def store_step_def row_contribution_def Let_def split: sum.splits)

lemma lookup_chunk_step:
  "row_contribution row = Inr c \<Longrightarrow>
     lookup (folder_data (chunk_step (n, row) st)) (folder_key c) =
       contribute c (lookup (folder_data st) (folder_key c))"
  by (simp add: folder_data_chunk_step lookup_store_step)

lemma folder_data_chunk_loop:
  "folder_data (chunk_loop ch st) = fold store_step (map snd ch) (folder_data st)"
  by (induction ch arbitrary: st) (simp_all add: folder_data_chunk_step)

lemma fst_process_chunk: "fst (process_chunk ch s sn el) = fold store_step (map snd ch) s"
  by (simp add: process_chunk_def Let_def folder_data_chunk_loop)

lemma fst_read_rows:
  "fst (read_rows cs sn rows st) =
     fold store_step (map snd (chunk st) @ filter (\<lambda>r. 3 \<le> length r) rows) (csv_folder_data st)"
proof (induction rows arbitrary: st)
  case Nil
  then show ?case by (simp add: fst_process_chunk)
next
  case (Cons row rows)
  show ?case
  proof (cases "length row < 3")
    case True
    then show ?thesis by (simp add: Cons.IH Let_def)
  next
    case False
    then show ?thesis
      by (simp add: Cons.IH Let_def split_beta fst_process_chunk)
  qed
qed

lemma fst_run_csv:
  "fst (run_csv cs rows) = fold store_step (filter (\<lambda>r. 3 \<le> length r) (tl rows)) []"
  by (simp add: run_csv_def Let_def split_beta fst_read_rows)

lemma report_run_csv:
  "fst (snd (run_csv cs rows)) = map (output_row ''Unknown'') (fst (run_csv cs rows))"
  by (simp add: run_csv_def Let_def split_beta)

lemma map_snd_numbered: "map snd (numbered n rows) = filter (\<lambda>r. 3 \<le> length r) rows"
  by (induction rows arbitrary: n) (simp_all add: not_less)

section \<open>Growth and invariants of the dictionary\<close>

lemma contribute_grows:
  "0 \<le> length_bytes c \<Longrightarrow>
     files a \<le> files (contribute c a) \<and> size_bytes a \<le> size_bytes (contribute c a) \<and>
     fcard (subfolders a) \<le> fcard (subfolders (contribute c a))"
  by (simp add: contribute_def fcard_mono)

lemma store_step_grows:
  "files (lookup s k) \<le> files (lookup (store_step row s) k) \<and>
   size_bytes (lookup s k) \<le> size_bytes (lookup (store_step row s) k) \<and>
   fcard (subfolders (lookup s k)) \<le> fcard (subfolders (lookup (store_step row s) k))"
  using contribute_grows length_bytes_nonneg
  by (auto simp: lookup_store_step split: sum.splits)

lemma fold_store_step_grows:
  "files (lookup s k) \<le> files (lookup (fold store_step rows s) k) \<and>
   size_bytes (lookup s k) \<le> size_bytes (lookup (fold store_step rows s) k) \<and>
   fcard (subfolders (lookup s k)) \<le> fcard (subfolders (lookup (fold store_step rows s) k))"
proof (induction rows arbitrary: s)
  case Nil
  show ?case by simp
next
  case (Cons row rows)
  show ?case
    using store_step_grows [of s k row] Cons.IH [of "store_step row s"]
    by simp
qed

lemma fold_store_step_keys: "keys s \<subseteq> keys (fold store_step rows s)"
proof (induction rows arbitrary: s)
  case Nil
  show ?case by simp
next
  case (Cons row rows)
  show ?case
    using keys_store_step [of s row] Cons.IH [of "store_step row s"] by auto
qed


lemma store_step_files_positive:
  assumes "\<forall>e\<in>set s. 1 \<le> files (snd e)"
  shows "\<forall>e\<in>set (store_step row s). 1 \<le> files (snd e)"
proof (cases "row_contribution row")
  case (Inl r)
  with assms show ?thesis by (simp add: store_step_def)
next
  case (Inr c)
  have "0 \<le> files (lookup s (folder_key c))"
    using lookup_cases [of s "folder_key c"] assms by (auto simp: zero_aggregate_def)
  then have "1 \<le> files (contribute c (lookup s (folder_key c)))"
    by (simp add: contribute_def)
  with assms Inr show ?thesis
    by (auto simp: store_step_def apply_contribution_modify dest!: set_modify)
qed

lemma fold_store_step_files_positive:
  "\<forall>e\<in>set s. 1 \<le> files (snd e) \<Longrightarrow> \<forall>e\<in>set (fold store_step rows s). 1 \<le> files (snd e)"
proof (induction rows arbitrary: s)
  case Nil
  then show ?case by simp
next
  case (Cons row rows)
  from Cons.prems have "\<forall>e\<in>set (store_step row s). 1 \<le> files (snd e)"
    by (rule store_step_files_positive)
  then have "\<forall>e\<in>set (fold store_step rows (store_step row s)). 1 \<le> files (snd e)"
    by (rule Cons.IH)
  then show ?case by simp
qed


lemma reached_nonneg:
  "0 \<le> files (lookup (folder_data (chunk_loop ch init_state)) k) \<and>
   0 \<le> size_bytes (lookup (folder_data (chunk_loop ch init_state)) k)"
  using fold_store_step_grows [of "[]" k "map snd ch"]
  by (simp add: folder_data_chunk_loop init_state_def lookup_def zero_aggregate_def)

section \<open>The error log\<close>

lemma attributed_nonempty: "attributed row \<Longrightarrow> row \<noteq> []"
  by (auto simp: attributed_def row_contribution_def)




lemma chunk_step_skipped:
  "row \<noteq> [] \<Longrightarrow> row_contribution row = Inl r \<Longrightarrow>
     folder_data (chunk_step (n, row) st) = folder_data st \<and>
     error_log (chunk_step (n, row) st) = error_log st @ [Row_skipped n r]"
  by (simp add: chunk_step_def Let_def)




section \<open>The example rows, evaluated\<close>


lemma row_contribution_a:
  "row_contribution row_a =
     Inr \<lparr>folder_key = key_top, length_bytes = 1000,
          new_subfolders = Some [''sub1'', ''sub1'' @ [backslash] @ ''sub2'']\<rparr>"
  by code_simp

lemma parsed_size_a: "parsed_size row_a = 1000"
  by code_simp

lemma valid_row_a: "valid_row row_a"
  by code_simp


lemma decompose_example:
  "decompose example_path = Some (key_top, Some [''sub1'', ''sub1'' @ [backslash] @ ''sub2''])"
  by code_simp




lemma row_plain_facts:
  "find_full_name row_plain = Some (unc_path [''host'', ''share'', ''top'', ''file.ext'']) \<and>
   3 \<le> length (split_on backslash (py_strip (unc_path [''host'', ''share'', ''top'', ''file.ext'']))) \<and>
   find numeric_field row_plain = None"
  by code_simp

section \<open>The claims\<close>

subsection \<open>C1: the server name in the report\<close>

text \<open>
  C1 says that once a row has been attributed, the \<open>Server_Name\<close> field of every data
  row of the report is the first field of that row and not the initial \<open>Unknown\<close>.
  Line 90 assigns the stripped first field to the parameter \<open>server_name\<close> of
  \<open>process_chunk\<close>; the variable of the same name in \<open>process_csv\<close>, which line 63
  writes to the report, keeps the value of line 33. On the header and one attributed
  row whose first field is \<open>SRV1\<close>, the name is \<open>SRV1\<close> inside the call and the report
  says \<open>Unknown\<close>.
\<close>

theorem server_name_left_unknown:
  "attributed row_a \<and> hd row_a = ''SRV1'' \<and>
   server_name (chunk_loop [(2, row_a)] init_state) = ''SRV1'' \<and>
   map r_server_name (fst (snd (process_csv [[''Server''], row_a]))) = [''Unknown'']"
proof -
  have local: "attributed row_a \<and> hd row_a = ''SRV1'' \<and>
      server_name (chunk_loop [(2, row_a)] init_state) = ''SRV1''"
    by code_simp
  have "map r_server_name (map (output_row ''Unknown'') (fold store_step [row_a] [])) = [''Unknown'']"
    by code_simp
  moreover have "3 \<le> length row_a"
    by (simp add: row_a_def)
  ultimately have "map r_server_name (fst (snd (process_csv [[''Server''], row_a]))) = [''Unknown'']"
    by (simp add: process_csv_def report_run_csv fst_run_csv)
  with local show ?thesis
    by simp
qed

subsection \<open>C2: which entry the period test discards\<close>

text \<open>
  C2 says that, with more than three directory segments, the deepest cumulative
  subfolder is discarded exactly when the leaf of the path holds a period. Line 132
  tests \<open>parts[-1]\<close>, and \<open>parts\<close> are the segments of the directory, from which line
  108 has already removed the leaf (the comment of line 133 calls it the file name).
  For the leaf \<open>file.ext\<close> under \<open>sub1\sub2\<close> both generated entries are kept; for the
  leaf \<open>readme\<close> under \<open>sub1\v1.2\<close> the entry of the directory \<open>v1.2\<close> is discarded.
\<close>

theorem period_tested_on_last_directory:
  "find_full_name row_a = Some example_path \<and>
   last (split_on backslash example_path) = ''file.ext'' \<and>
   period \<in> set ''file.ext'' \<and>
   row_contribution row_a =
     Inr \<lparr>folder_key = key_top, length_bytes = 1000,
          new_subfolders = Some [''sub1'', ''sub1'' @ [backslash] @ ''sub2'']\<rparr> \<and>
   find_full_name row_dotted = Some dotted_dir_path \<and>
   last (split_on backslash dotted_dir_path) = ''readme'' \<and>
   period \<notin> set ''readme'' \<and>
   row_contribution row_dotted =
     Inr \<lparr>folder_key = key_top, length_bytes = 1000, new_subfolders = Some [''sub1'']\<rparr>"
  by code_simp

subsection \<open>C3: the aggregate after the example row\<close>

text \<open>
  C3, as stated, asks that after a row with the path
  \<open>\\host\share\top\sub1\sub2\file.ext\<close> the set of subfolders of the key
  \<open>(\\host\share, top)\<close> holds the string \<open>top\sub1\<close>. Line 131 joins \<open>parts[3:i+1]\<close>,
  so the entries are relative to the top-level folder: starting from the empty
  dictionary the set does not hold \<open>top\sub1\<close>.
\<close>

theorem example_row_counterexample:
  "find_full_name row_a = Some example_path \<and> extract_length row_a = Inr 1000 \<and>
   \<not> (''top'' @ [backslash] @ ''sub1'' |\<in>|
        subfolders (lookup (folder_data (chunk_step (2, row_a) init_state)) key_top))"
  by code_simp

text \<open>
  C3, amended: for every row whose path field is that path and whose size is \<open>S\<close>,
  applied in any state reached from the empty dictionary, the key \<open>(\\host\share, top)\<close>
  has one file more than before (so at least 1), \<open>S\<close> bytes more than before (so at
  least \<open>S\<close>), and a subfolder set that holds \<open>sub1\<close>.
\<close>

theorem example_row_aggregate:
  assumes "find_full_name row = Some example_path" and "extract_length row = Inr S"
  shows "1 \<le> files (lookup (folder_data (chunk_step (n, row) (chunk_loop ch init_state))) key_top) \<and>
     files (lookup (folder_data (chunk_step (n, row) (chunk_loop ch init_state))) key_top) =
       files (lookup (folder_data (chunk_loop ch init_state)) key_top) + 1 \<and>
     S \<le> size_bytes (lookup (folder_data (chunk_step (n, row) (chunk_loop ch init_state))) key_top) \<and>
     size_bytes (lookup (folder_data (chunk_step (n, row) (chunk_loop ch init_state))) key_top) =
       size_bytes (lookup (folder_data (chunk_loop ch init_state)) key_top) + S \<and>
     ''sub1'' |\<in>|
       subfolders (lookup (folder_data (chunk_step (n, row) (chunk_loop ch init_state))) key_top)"
proof -
  let ?c = "\<lparr>folder_key = key_top, length_bytes = S,
              new_subfolders = Some [''sub1'', ''sub1'' @ [backslash] @ ''sub2'']\<rparr>"
  have c: "row_contribution row = Inr ?c"
    using assms by (simp add: row_contribution_decompose decompose_example)
  have "lookup (folder_data (chunk_step (n, row) (chunk_loop ch init_state))) key_top =
      contribute ?c (lookup (folder_data (chunk_loop ch init_state)) key_top)"
    using lookup_chunk_step [OF c] by simp
  with reached_nonneg [of ch key_top] show ?thesis
    by (simp add: contribute_def)
qed

theorem example_row_aggregate_witness:
  "find_full_name row_a = Some example_path \<and> extract_length row_a = Inr 1000 \<and>
   files (lookup (folder_data (chunk_step (2, row_a) init_state)) key_top) = 1 \<and>
   size_bytes (lookup (folder_data (chunk_step (2, row_a) init_state)) key_top) = 1000 \<and>
   ''sub1'' |\<in>| subfolders (lookup (folder_data (chunk_step (2, row_a) init_state)) key_top)"
proof -
  have fn: "find_full_name row_a = Some example_path" by code_simp
  have len: "extract_length row_a = Inr 1000" by code_simp
  from example_row_aggregate [OF fn len, of 2 "[]"] fn len show ?thesis
    by (simp add: init_state_def lookup_def zero_aggregate_def)
qed

subsection \<open>C4: which paths are rejected as malformed\<close>

text \<open>
  C4, as stated, rejects every row whose path, stripped of the backslashes at both ends
  and split, leaves fewer than two segments once the leaf is dropped. Line 103 splits
  the path without stripping backslashes and line 104 counts the leaf in; the short
  directory is then taken by the \<open>else\<close> branch of lines 115-117. The path
  \<open>\\host\file.txt\<close> has the single directory segment \<open>host\<close> and is attributed to
  the key \<open>(host, Not Applicable)\<close> with nothing logged.
\<close>

theorem short_directory_counterexample:
  "find_full_name row_b = Some short_path \<and>
   length (spec_directory_segments short_path) < 2 \<and>
   row_contribution row_b =
     Inr \<lparr>folder_key = (''host'', ''Not Applicable''), length_bytes = 5, new_subfolders = None\<rparr> \<and>
   error_log (chunk_step (2, row_b) init_state) = [] \<and>
   files (lookup (folder_data (chunk_step (2, row_b) init_state)) (''host'', ''Not Applicable'')) = 1"
  by code_simp

text \<open>
  C4, amended: a row with a path field is rejected as malformed exactly when the path,
  stripped of white space and split on the backslash as it stands, has fewer than three
  segments, that is when it holds fewer than two backslashes; the row then adds one
  entry to the error log and leaves the dictionary as it was.
\<close>

theorem malformed_path_rejected:
  assumes "find_full_name row = Some full_name"
  shows "(row_contribution row = Inl FullName_malformed) =
           (length (split_on backslash (py_strip full_name)) < 3) \<and>
         (length (split_on backslash (py_strip full_name)) < 3) =
           (length (filter (\<lambda>x. x = backslash) (py_strip full_name)) < 2) \<and>
         (length (split_on backslash (py_strip full_name)) < 3 \<longrightarrow>
            folder_data (chunk_step (n, row) st) = folder_data st \<and>
            error_log (chunk_step (n, row) st) =
              error_log st @ [Row_skipped n FullName_malformed])"
proof -
  from assms have ne: "row \<noteq> []"
    by auto
  have iff: "(row_contribution row = Inl FullName_malformed) =
      (length (split_on backslash (py_strip full_name)) < 3)"
    using assms
    by (auto simp: row_contribution_decompose decompose_def Let_def split: sum.splits)
  have count: "(length (split_on backslash (py_strip full_name)) < 3) =
      (length (filter (\<lambda>x. x = backslash) (py_strip full_name)) < 2)"
    by (auto simp: length_split_on)
  from iff count chunk_step_skipped [OF ne, of FullName_malformed n st] show ?thesis
    by blast
qed

theorem malformed_path_rejected_witness:
  "find_full_name [''SRV1'', [backslash] @ ''file.txt'', ''7''] = Some ([backslash] @ ''file.txt'') \<and>
   row_contribution [''SRV1'', [backslash] @ ''file.txt'', ''7''] = Inl FullName_malformed \<and>
   folder_data (chunk_step (2, [''SRV1'', [backslash] @ ''file.txt'', ''7'']) init_state) = [] \<and>
   error_log (chunk_step (2, [''SRV1'', [backslash] @ ''file.txt'', ''7'']) init_state) =
     [Row_skipped 2 FullName_malformed]"
proof -
  have fn: "find_full_name [''SRV1'', [backslash] @ ''file.txt'', ''7''] =
      Some ([backslash] @ ''file.txt'')"
    by code_simp
  have short: "length (split_on backslash (py_strip ([backslash] @ ''file.txt''))) < 3"
    by code_simp
  from malformed_path_rejected [OF fn, of 2 init_state] short fn show ?thesis
    by (simp add: init_state_def)
qed

subsection \<open>C5: one row with too few columns\<close>



subsection \<open>C6: increments and monotonicity\<close>

text \<open>
  C6: a row attributed to a key adds exactly 1 to the file count of that key and
  exactly its parsed size to the size (0 when no field is numeric); over any chunk the
  file count, the size and the number of distinct subfolders of every key do not
  decrease, and every key of the dictionary stays in it.
\<close>

theorem attribution_increments:
  "(row_contribution row = Inr c \<longrightarrow>
      files (lookup (folder_data (chunk_step (n, row) st)) (folder_key c)) =
        files (lookup (folder_data st) (folder_key c)) + 1 \<and>
      size_bytes (lookup (folder_data (chunk_step (n, row) st)) (folder_key c)) =
        size_bytes (lookup (folder_data st) (folder_key c)) + length_bytes c \<and>
      length_bytes c = parsed_size row \<and>
      (find numeric_field row = None \<longrightarrow> length_bytes c = 0)) \<and>
   files (lookup (folder_data st) k) \<le> files (lookup (folder_data (chunk_loop ch st)) k) \<and>
   size_bytes (lookup (folder_data st) k) \<le>
     size_bytes (lookup (folder_data (chunk_loop ch st)) k) \<and>
   fcard (subfolders (lookup (folder_data st) k)) \<le>
     fcard (subfolders (lookup (folder_data (chunk_loop ch st)) k)) \<and>
   keys (folder_data st) \<subseteq> keys (folder_data (chunk_loop ch st))"
proof -
  have exact: "files (lookup (folder_data (chunk_step (n, row) st)) (folder_key c)) =
        files (lookup (folder_data st) (folder_key c)) + 1 \<and>
      size_bytes (lookup (folder_data (chunk_step (n, row) st)) (folder_key c)) =
        size_bytes (lookup (folder_data st) (folder_key c)) + length_bytes c \<and>
      length_bytes c = parsed_size row \<and>
      (find numeric_field row = None \<longrightarrow> length_bytes c = 0)"
    if c: "row_contribution row = Inr c"
  proof -
    from c have "extract_length row = Inr (length_bytes c)"
      by (rule row_contribution_length)
    then have "length_bytes c = parsed_size row"
      by (rule extract_length_parsed_size)
    then show ?thesis
      by (simp add: lookup_chunk_step [OF c] contribute_def parsed_size_def)
  qed
  have grows: "files (lookup (folder_data st) k) \<le> files (lookup (folder_data (chunk_loop ch st)) k) \<and>
      size_bytes (lookup (folder_data st) k) \<le>
        size_bytes (lookup (folder_data (chunk_loop ch st)) k) \<and>
      fcard (subfolders (lookup (folder_data st) k)) \<le>
        fcard (subfolders (lookup (folder_data (chunk_loop ch st)) k))"
    unfolding folder_data_chunk_loop by (rule fold_store_step_grows)
  have "keys (folder_data st) \<subseteq> keys (folder_data (chunk_loop ch st))"
    unfolding folder_data_chunk_loop by (rule fold_store_step_keys)
  with exact grows show ?thesis
    by blast
qed

theorem attribution_increments_witness:
  "row_contribution row_a =
     Inr \<lparr>folder_key = key_top, length_bytes = 1000,
          new_subfolders = Some [''sub1'', ''sub1'' @ [backslash] @ ''sub2'']\<rparr> \<and>
   files (lookup (folder_data (chunk_step (2, row_a) init_state)) key_top) = 1 \<and>
   size_bytes (lookup (folder_data (chunk_step (2, row_a) init_state)) key_top) = 1000 \<and>
   parsed_size row_a = 1000"
  using attribution_increments [of row_a
      "\<lparr>folder_key = key_top, length_bytes = 1000,
        new_subfolders = Some [''sub1'', ''sub1'' @ [backslash] @ ''sub2'']\<rparr>"
      2 init_state key_top "[]"]
  by (simp add: row_contribution_a init_state_def lookup_def zero_aggregate_def)

subsection \<open>C7: batch boundaries\<close>

text \<open>
  C7: the final dictionary (keys in order, with size, subfolders and file count) and
  the report are the same for every batch size, and they are what a single call of
  \<open>process_chunk\<close> on all rows that pass line 45 produces.
\<close>

theorem batching_irrelevant:
  "fst (run_csv cs rows) = fst (run_csv cs' rows) \<and>
   fst (snd (run_csv cs rows)) = fst (snd (run_csv cs' rows)) \<and>
   fst (process_csv rows) = fst (process_chunk (numbered 1 (tl rows)) [] ''Unknown'' [])"
  by (simp add: process_csv_def report_run_csv fst_run_csv fst_process_chunk map_snd_numbered)

theorem batching_irrelevant_witness:
  "fst (run_csv 1 [[''h''], row_a, [''a'', ''b''], row_b]) =
     fst (run_csv chunk_size [[''h''], row_a, [''a'', ''b''], row_b]) \<and>
   fst (process_csv [[''h''], row_a, [''a'', ''b''], row_b]) =
     fst (process_chunk [(2, row_a), (4, row_b)] [] ''Unknown'' [])"
  using batching_irrelevant [of 1 "[[''h''], row_a, [''a'', ''b''], row_b]" chunk_size]
  by (simp add: row_a_def row_b_def eval_nat_numeral)

subsection \<open>C8: the size of a row\<close>

text \<open>
  C8: the size of an attributed row is the integer value of the first field, from the
  left, that consists of decimal digits only (at least one) once the surrounding quote
  characters are stripped; when no field is such, a row with a well-formed path is
  still attributed, with size 0, and counted. (A row whose first such field is longer
  than \<open>int\<close> converts is not attributed: the exception is logged at line 140.)
\<close>

theorem size_is_first_numeric_field:
  "(row_contribution row = Inr c \<longrightarrow> length_bytes c = parsed_size row) \<and>
   (find_full_name row = Some full_name \<and>
    3 \<le> length (split_on backslash (py_strip full_name)) \<and>
    find numeric_field row = None \<longrightarrow>
      (\<exists>c'. row_contribution row = Inr c' \<and> length_bytes c' = 0 \<and>
         files (lookup (folder_data (chunk_step (n, row) st)) (folder_key c')) =
           files (lookup (folder_data st) (folder_key c')) + 1))"
proof -
  have first: "length_bytes c = parsed_size row" if "row_contribution row = Inr c"
    using that by (auto dest: row_contribution_length extract_length_parsed_size)
  have second: "\<exists>c'. row_contribution row = Inr c' \<and> length_bytes c' = 0 \<and>
         files (lookup (folder_data (chunk_step (n, row) st)) (folder_key c')) =
           files (lookup (folder_data st) (folder_key c')) + 1"
    if fn: "find_full_name row = Some full_name"
      and parts: "3 \<le> length (split_on backslash (py_strip full_name))"
      and none: "find numeric_field row = None"
  proof -
    from parts have "full_name \<noteq> []"
      by (auto simp: py_strip_def strip_where_def)
    moreover from none have "extract_length row = Inr 0"
      by (simp add: extract_length_find)
    ultimately obtain c' where c': "row_contribution row = Inr c'" "length_bytes c' = 0"
      using fn parts by (simp add: row_contribution_def Let_def)
    from lookup_chunk_step [OF c'(1), of n st] c' show ?thesis
      by (simp add: contribute_def)
  qed
  from first second show ?thesis
    by blast
qed

theorem size_is_first_numeric_field_witness:
  "row_contribution row_a =
     Inr \<lparr>folder_key = key_top, length_bytes = 1000,
          new_subfolders = Some [''sub1'', ''sub1'' @ [backslash] @ ''sub2'']\<rparr> \<and>
   parsed_size row_a = 1000 \<and>
   find_full_name row_plain = Some (unc_path [''host'', ''share'', ''top'', ''file.ext'']) \<and>
   3 \<le> length (split_on backslash (py_strip (unc_path [''host'', ''share'', ''top'', ''file.ext'']))) \<and>
   find numeric_field row_plain = None \<and>
   (\<exists>c'. row_contribution row_plain = Inr c' \<and> length_bytes c' = 0)"
proof -
  from size_is_first_numeric_field [of row_a
      "\<lparr>folder_key = key_top, length_bytes = 1000,
        new_subfolders = Some [''sub1'', ''sub1'' @ [backslash] @ ''sub2'']\<rparr>"]
  have "parsed_size row_a = 1000"
    by (simp add: row_contribution_a)
  moreover from size_is_first_numeric_field [of row_plain _
      "unc_path [''host'', ''share'', ''top'', ''file.ext'']" 2 init_state] row_plain_facts
  have "\<exists>c'. row_contribution row_plain = Inr c' \<and> length_bytes c' = 0"
    by blast
  ultimately show ?thesis
    using row_plain_facts by (simp add: row_contribution_a)
qed

subsection \<open>C9: one gibibyte\<close>



subsection \<open>C10: no bucket without a file\<close>

text \<open>
  C10: every entry of the final dictionary has a file count of at least 1, and so has
  every data row of the report: an aggregate is created only by the statements that
  also count the row.
\<close>

theorem no_empty_bucket:
  "(\<forall>e\<in>set (fst (run_csv cs rows)). 1 \<le> files (snd e)) \<and>
   (\<forall>r\<in>set (fst (snd (run_csv cs rows))). 1 \<le> r_files r)"
proof -
  have "\<forall>e\<in>set (fst (run_csv cs rows)). 1 \<le> files (snd e)"
    unfolding fst_run_csv by (rule fold_store_step_files_positive) simp
  then show ?thesis
    by (auto simp: report_run_csv output_row_def)
qed

theorem no_empty_bucket_witness:
  "fst (process_csv [[''h''], row_a]) \<noteq> [] \<and>
   1 \<le> files (snd (hd (fst (process_csv [[''h''], row_a])))) \<and>
   fst (snd (process_csv [[''h''], row_a])) \<noteq> [] \<and>
   1 \<le> r_files (hd (fst (snd (process_csv [[''h''], row_a]))))"
proof -
  have "fold store_step [row_a] [] \<noteq> []"
    by code_simp
  then have ne: "fst (process_csv [[''h''], row_a]) \<noteq> []"
    by (simp add: process_csv_def fst_run_csv valid_row_a [unfolded valid_row_def])
  then have ne': "fst (snd (process_csv [[''h''], row_a])) \<noteq> []"
    by (simp add: process_csv_def report_run_csv)
  from ne ne' no_empty_bucket [of chunk_size "[[''h''], row_a]"] show ?thesis
    by (simp add: process_csv_def)
qed

end
